theory Spec2Isabelle
  imports Complex_Main "HOL-Library.Word"
begin

unbundle bit_operations_syntax

section \<open>Values handled by the MongoDB source helpers\<close>

text \<open>
  The helpers of \<^verbatim>\<open>sources/mongodb/helpers.py\<close> work on the Python values that PyMongo
  hands out for BSON documents. The two kinds the module converts are
  \<^verbatim>\<open>bson.decimal128.Decimal128\<close> and \<^verbatim>\<open>bson.objectid.ObjectId\<close>; the result of
  converting the former is a \<^verbatim>\<open>decimal.Decimal\<close>.
\<close>

text \<open>
  A decimal number: sign, integer coefficient and power of ten, or one of the special
  values. \<^verbatim>\<open>decimal.Decimal\<close> and \<^verbatim>\<open>Decimal128\<close> are classes of the Python
  standard library and of the \<^verbatim>\<open>bson\<close> package; the module only imports them.
\<close>

datatype decimal =
    Decimal (dec_negative: bool) (dec_coefficient: nat) (dec_exponent: int)
  | DecInfinity bool
  | DecNaN

datatype decimal128 =
    Decimal128 (d128_negative: bool) (d128_coefficient: nat) (d128_exponent: int)
  | D128Infinity bool
  | D128NaN

text \<open>An ObjectId is 12 bytes, read here as one 96-bit word (most significant byte first).\<close>

type_synonym objectid = "96 word"

text \<open>
  Python values. \<open>VFloat\<close> carries the IEEE-754 bits of a \<^verbatim>\<open>float\<close>. \<open>VOther t n\<close> is
  an object of any other class (a \<^verbatim>\<open>datetime\<close>, a \<^verbatim>\<open>Binary\<close>, a \<^verbatim>\<open>Regex\<close>, ...):
  \<open>t\<close> is what \<^verbatim>\<open>bool()\<close> reports for it and \<open>n\<close> tells the objects apart. A
  \<^verbatim>\<open>dict\<close> is the list of its items in insertion order, its keys being strings.
\<close>

datatype val =
    VNone
  | VBool bool
  | VInt int
  | VFloat "64 word"
  | VStr string
  | VDecimal decimal
  | VDecimal128 decimal128
  | VObjectId objectid
  | VOther bool nat
  | VList "val list"
  | VDict "(string \<times> val) list"

text \<open>
  A Python \<^verbatim>\<open>dict\<close> never holds a key twice; \<open>wf_val\<close> says so for every mapping inside
  a value.
\<close>

fun wf_val :: "val \<Rightarrow> bool"
  and wf_list :: "val list \<Rightarrow> bool"
  and wf_items :: "(string \<times> val) list \<Rightarrow> bool" where
  "wf_val (VList xs) = wf_list xs"
| "wf_val (VDict items) = (distinct (map fst items) \<and> wf_items items)"
| "wf_val v = True"
| "wf_list [] = True"
| "wf_list (x # xs) = (wf_val x \<and> wf_list xs)"
| "wf_items [] = True"
| "wf_items (kv # items) = (wf_val (snd kv) \<and> wf_items items)"

text \<open>\<^verbatim>\<open>d[key] = value\<close>: an existing key keeps its position, a new key goes last.\<close>

fun dict_set :: "('k \<times> 'v) list \<Rightarrow> 'k \<Rightarrow> 'v \<Rightarrow> ('k \<times> 'v) list" where
  "dict_set [] key v = [(key, v)]"
| "dict_set ((k, w) # d) key v =
     (if k = key then (k, v) # d else (k, w) # dict_set d key v)"

text \<open>\<^verbatim>\<open>d.get(key)\<close>.\<close>

fun dict_get :: "('k \<times> 'v) list \<Rightarrow> 'k \<Rightarrow> 'v option" where
  "dict_get [] key = None"
| "dict_get ((k, w) # d) key = (if k = key then Some w else dict_get d key)"

text \<open>Python's truth value of an object, which \<^verbatim>\<open>not x\<close> negates.\<close>

fun truthy :: "val \<Rightarrow> bool" where
  "truthy VNone = False"
| "truthy (VBool b) = b"
| "truthy (VInt i) = (i \<noteq> 0)"
| "truthy (VFloat f) = (f AND 0x7FFFFFFFFFFFFFFF \<noteq> 0)"
| "truthy (VStr s) = (s \<noteq> [])"
| "truthy (VDecimal d) = (case d of Decimal s c e \<Rightarrow> c \<noteq> 0 | _ \<Rightarrow> True)"
| "truthy (VDecimal128 d) = True"
| "truthy (VObjectId oid) = True"
| "truthy (VOther t n) = t"
| "truthy (VList xs) = (xs \<noteq> [])"
| "truthy (VDict items) = (items \<noteq> [])"

section \<open>The library conversions the module calls\<close>

text \<open>
  Modelled from the spec: \<^verbatim>\<open>Decimal128.to_decimal()\<close> belongs to the \<^verbatim>\<open>bson\<close> package,
  which is not part of the sources. The specification describes it as the conversion
  "to an exact decimal number representation (no precision loss, no float rounding)":
  sign, coefficient and exponent are carried over as they are.
\<close>

fun to_decimal :: "decimal128 \<Rightarrow> decimal" where
  "to_decimal (Decimal128 s c e) = Decimal s c e"
| "to_decimal (D128Infinity s) = DecInfinity s"
| "to_decimal D128NaN = DecNaN"

text \<open>The rational number a finite decimal denotes.\<close>

definition pow10 :: "int \<Rightarrow> rat" where
  "pow10 e = (if 0 \<le> e then 10 ^ nat e else 1 / 10 ^ nat (- e))"

fun decimal_value :: "decimal \<Rightarrow> rat option" where
  "decimal_value (Decimal s c e) =
     Some ((if s then - 1 else 1) * of_nat c * pow10 e)"
| "decimal_value d = None"

fun decimal128_value :: "decimal128 \<Rightarrow> rat option" where
  "decimal128_value (Decimal128 s c e) =
     Some ((if s then - 1 else 1) * of_nat c * pow10 e)"
| "decimal128_value d = None"

text \<open>
  Modelled from the spec: \<^verbatim>\<open>str(ObjectId)\<close> belongs to the \<^verbatim>\<open>bson\<close> package as well.
  The specification calls its result the "canonical string text representation" of the
  12-byte identifier; that is the 24 lower-case hexadecimal digits of the bytes.
\<close>

definition hex_digit :: "nat \<Rightarrow> char" where
  "hex_digit n = ''0123456789abcdef'' ! (n mod 16)"

definition str_ObjectId :: "objectid \<Rightarrow> string" where
  "str_ObjectId oid =
     map (\<lambda>i. hex_digit (unat (drop_bit (4 * (23 - i)) oid AND 15))) [0..<24]"

section \<open>\<^verbatim>\<open>CollectionLoader\<close>\<close>

text \<open>
  \<^verbatim>\<open>dlt.sources.incremental\<close>, as far as the loader reads it. \<open>last_value_func\<close> is a
  Python callable that the loader compares with the builtins \<^verbatim>\<open>max\<close> and \<^verbatim>\<open>min\<close> by
  identity.
\<close>

datatype last_value_func = Max | Min | Custom

record dlt_incremental =
  cursor_path :: string
  last_value :: val
  last_value_func :: last_value_func

text \<open>
  The loader object. \<open>collection\<close> stands for the PyMongo collection: its \<^verbatim>\<open>find\<close>
  method, from a filter to the documents the cursor will deliver, in the store's order.
  An attribute that \<^verbatim>\<open>__init__\<close> did not assign is \<open>None\<close> in \<open>cursor_field\<close>
  (when no incremental is given, \<^verbatim>\<open>__init__\<close> assigns \<^verbatim>\<open>self.cursor_column\<close> instead).
  The \<^verbatim>\<open>client\<close> attribute is never read and is left out.
\<close>

record CollectionLoader =
  collection :: "val \<Rightarrow> val list"
  incremental :: "dlt_incremental option"
  cursor_field :: "string option"
  loader_last_value :: val

datatype error = AttributeError

text \<open>
  \<^verbatim>\<open>__init__\<close>. An \<^verbatim>\<open>incremental\<close> object is a configuration with fields, so
  \<^verbatim>\<open>if incremental\<close> is true exactly when one is given.
\<close>

definition init :: "(val \<Rightarrow> val list) \<Rightarrow> dlt_incremental option \<Rightarrow> CollectionLoader" where
  "init coll inc =
     (case inc of
        Some i \<Rightarrow> \<lparr>collection = coll, incremental = inc,
                   cursor_field = Some (cursor_path i), loader_last_value = last_value i\<rparr>
      | None \<Rightarrow> \<lparr>collection = coll, incremental = inc,
                 cursor_field = None, loader_last_value = VNone\<rparr>)"

text \<open>The \<^verbatim>\<open>filter_op\<close> that \<^verbatim>\<open>make_query\<close> builds, branch by branch.\<close>

definition filter_op :: "CollectionLoader \<Rightarrow> error + val" where
  "filter_op self =
     (if incremental self = None \<or> \<not> truthy (loader_last_value self) then Inr (VDict [])
      else if last_value_func (the (incremental self)) = Max then
        (case cursor_field self of
           None \<Rightarrow> Inl AttributeError
         | Some f \<Rightarrow> Inr (VDict [(f, VDict [(''$gte'', loader_last_value self)])]))
      else if last_value_func (the (incremental self)) = Min then
        (case cursor_field self of
           None \<Rightarrow> Inl AttributeError
         | Some f \<Rightarrow> Inr (VDict [(f, VDict [(''$lt'', loader_last_value self)])]))
      else Inr (VDict []))"

definition make_query :: "CollectionLoader \<Rightarrow> error + val list" where
  "make_query self =
     (case filter_op self of
        Inl e \<Rightarrow> Inl e
      | Inr f \<Rightarrow> Inr (collection self f))"

text \<open>
  \<^verbatim>\<open>clean_document\<close>. \<open>clean_items\<close> is the loop over \<^verbatim>\<open>document.items()\<close> with the
  \<^verbatim>\<open>output\<close> built so far, \<open>clean_list\<close> the list comprehension over the items of a
  list value. The chain of \<^verbatim>\<open>isinstance\<close> tests is the case distinction on the value.
\<close>

fun clean_document :: "val \<Rightarrow> val"
  and clean_items :: "(string \<times> val) list \<Rightarrow> (string \<times> val) list \<Rightarrow> (string \<times> val) list"
  and clean_list :: "val list \<Rightarrow> val list" where
  "clean_document (VDict items) = VDict (clean_items items [])"
| "clean_document document = document"
| "clean_items [] output = output"
| "clean_items ((key, v) # rest) output =
     clean_items rest
       (dict_set output key
          (case v of
             VDict d \<Rightarrow> clean_document (VDict d)
           | VList xs \<Rightarrow> VList (clean_list xs)
           | VDecimal128 d \<Rightarrow> VDecimal (to_decimal d)
           | VObjectId oid \<Rightarrow> VStr (str_ObjectId oid)
           | _ \<Rightarrow> v))"
| "clean_list [] = []"
| "clean_list (item # xs) = clean_document item # clean_list xs"

definition load_documents :: "CollectionLoader \<Rightarrow> error + val list" where
  "load_documents self =
     (case make_query self of
        Inl e \<Rightarrow> Inl e
      | Inr cursor \<Rightarrow> Inr (map clean_document cursor))"

section \<open>\<^verbatim>\<open>collection_documents\<close>\<close>

definition CHUNK_SIZE :: nat where
  "CHUNK_SIZE = 10000"

text \<open>
  The \<^verbatim>\<open>while docs_slice := list(islice(documents_load, CHUNK_SIZE))\<close> loop: the first
  argument is the slice size, the second what the generator has still to deliver; the
  result is the list of the slices yielded.
\<close>

function slices :: "nat \<Rightarrow> 'a list \<Rightarrow> 'a list list" where
  "slices n documents_load =
     (let docs_slice = take n documents_load in
      if docs_slice = [] then []
      else docs_slice # slices n (drop n documents_load))"
  by pat_completeness auto
termination
  by (relation "measure (\<lambda>(n, xs). length xs)") auto

declare slices.simps [simp del]

definition collection_documents ::
  "(val \<Rightarrow> val list) \<Rightarrow> dlt_incremental option \<Rightarrow> error + val list list" where
  "collection_documents coll inc =
     (let loader = init coll inc in
      case load_documents loader of
        Inl e \<Rightarrow> Inl e
      | Inr documents_load \<Rightarrow> Inr (slices CHUNK_SIZE documents_load))"

section \<open>Notions used to state the properties\<close>

text \<open>The \<^verbatim>\<open>isinstance\<close> tests of \<^verbatim>\<open>clean_document\<close>.\<close>

fun is_dict :: "val \<Rightarrow> bool" where
  "is_dict (VDict items) = True"
| "is_dict v = False"

fun is_list :: "val \<Rightarrow> bool" where
  "is_list (VList xs) = True"
| "is_list v = False"

fun is_Decimal128 :: "val \<Rightarrow> bool" where
  "is_Decimal128 (VDecimal128 d) = True"
| "is_Decimal128 v = False"

fun is_ObjectId :: "val \<Rightarrow> bool" where
  "is_ObjectId (VObjectId oid) = True"
| "is_ObjectId v = False"

text \<open>
  A value holds a special scalar when a \<^verbatim>\<open>Decimal128\<close> or an \<^verbatim>\<open>ObjectId\<close> occurs in it
  at any depth.
\<close>

fun has_special :: "val \<Rightarrow> bool"
  and has_special_list :: "val list \<Rightarrow> bool"
  and has_special_items :: "(string \<times> val) list \<Rightarrow> bool" where
  "has_special (VDecimal128 d) = True"
| "has_special (VObjectId oid) = True"
| "has_special (VList xs) = has_special_list xs"
| "has_special (VDict items) = has_special_items items"
| "has_special v = False"
| "has_special_list [] = False"
| "has_special_list (x # xs) = (has_special x \<or> has_special_list xs)"
| "has_special_items [] = False"
| "has_special_items (kv # items) = (has_special (snd kv) \<or> has_special_items items)"

text \<open>
  What one round of the loop of \<^verbatim>\<open>clean_document\<close> stores under the key of a value
  (see \<open>clean_items_step\<close> below).
\<close>

definition clean_value :: "val \<Rightarrow> val" where
  "clean_value v =
     (case v of
        VDict d \<Rightarrow> clean_document (VDict d)
      | VList xs \<Rightarrow> VList (map clean_document xs)
      | VDecimal128 d \<Rightarrow> VDecimal (to_decimal d)
      | VObjectId oid \<Rightarrow> VStr (str_ObjectId oid)
      | _ \<Rightarrow> v)"

text \<open>
  The filter as the specification words it ("no prior watermark" read as the watermark
  being \<^verbatim>\<open>None\<close>), to be compared with \<open>filter_op\<close>.
\<close>

definition filter_spec :: "dlt_incremental option \<Rightarrow> val" where
  "filter_spec inc =
     (case inc of
        None \<Rightarrow> VDict []
      | Some i \<Rightarrow>
          if last_value i = VNone then VDict []
          else (case last_value_func i of
                  Max \<Rightarrow> VDict [(cursor_path i, VDict [(''$gte'', last_value i)])]
                | Min \<Rightarrow> VDict [(cursor_path i, VDict [(''$lt'', last_value i)])]
                | Custom \<Rightarrow> VDict []))"

text \<open>A collection without documents, and one that holds the given documents and
  delivers all of them for the empty filter.\<close>

definition no_documents :: "val \<Rightarrow> val list" where
  "no_documents f = []"

definition documents :: "val list \<Rightarrow> val \<Rightarrow> val list" where
  "documents docs f = (if f = VDict [] then docs else [])"

section \<open>Dictionaries and the loop of \<^verbatim>\<open>clean_document\<close>\<close>

lemma clean_list_map: "clean_list xs = map clean_document xs"
  by (induction xs) auto

lemma dict_set_append: "key \<notin> fst ` set d \<Longrightarrow> dict_set d key v = d @ [(key, v)]"
  by (induction d) auto

lemma dict_get_map:
  "dict_get (map (\<lambda>kv. (fst kv, f (snd kv))) items) key = map_option f (dict_get items key)"
  by (induction items) auto

lemma wf_list_iff: "wf_list xs = (\<forall>x\<in>set xs. wf_val x)"
  by (induction xs) auto

lemma wf_items_iff: "wf_items items = (\<forall>kv\<in>set items. wf_val (snd kv))"
  by (induction items) auto

lemma has_special_list_iff: "has_special_list xs = (\<exists>x\<in>set xs. has_special x)"
  by (induction xs) auto

lemma has_special_items_iff:
  "has_special_items items = (\<exists>kv\<in>set items. has_special (snd kv))"
  by (induction items) auto

lemma clean_value_dict: "clean_value (VDict items) = clean_document (VDict items)"
  by (simp add: clean_value_def)

lemma clean_value_list: "clean_value (VList xs) = VList (map clean_document xs)"
  by (simp add: clean_value_def)

lemma clean_value_other:
  "\<not> is_dict v \<Longrightarrow> \<not> is_list v \<Longrightarrow> \<not> is_Decimal128 v \<Longrightarrow> \<not> is_ObjectId v \<Longrightarrow>
   clean_value v = v"
  by (cases v) (simp_all add: clean_value_def)

lemma clean_items_step:
  "clean_items ((key, v) # rest) out = clean_items rest (dict_set out key (clean_value v))"
  by (simp add: clean_value_def clean_list_map split: val.splits)

text \<open>With the keys of a dictionary all different, the loop maps over the items.\<close>

lemma clean_items_map:
  "distinct (map fst out @ map fst items) \<Longrightarrow>
   clean_items items out = out @ map (\<lambda>kv. (fst kv, clean_value (snd kv))) items"
proof (induction items arbitrary: out)
  case Nil
  then show ?case by simp
next
  case (Cons kv items)
  obtain key v where kv: "kv = (key, v)" by (cases kv)
  from Cons.prems have fresh: "key \<notin> fst ` set out"
    by (auto simp: kv)
  from Cons.prems have "distinct (map fst (out @ [(key, clean_value v)]) @ map fst items)"
    by (auto simp: kv)
  then have "clean_items items (out @ [(key, clean_value v)]) =
      (out @ [(key, clean_value v)]) @ map (\<lambda>kv. (fst kv, clean_value (snd kv))) items"
    by (rule Cons.IH)
  then show ?case
    by (simp add: kv clean_items_step dict_set_append [OF fresh] del: clean_items.simps)
qed

lemma clean_document_dict:
  "distinct (map fst items) \<Longrightarrow>
   clean_document (VDict items) = VDict (map (\<lambda>kv. (fst kv, clean_value (snd kv))) items)"
  using clean_items_map [of "[]" items] by simp

lemma clean_document_field:
  assumes "distinct (map fst items)" and "dict_get items key = Some v"
  shows "\<exists>out. clean_document (VDict items) = VDict out \<and>
               map fst out = map fst items \<and>
               dict_get out key = Some (clean_value v)"
  using assms by (simp add: clean_document_dict dict_get_map comp_def del: clean_document.simps)

lemma clean_document_non_dict: "\<not> is_dict v \<Longrightarrow> clean_document v = v"
  by (cases v) auto

lemma no_special_clean:
  "wf_val v \<Longrightarrow> \<not> has_special v \<Longrightarrow> clean_document v = v \<and> clean_value v = v"
proof (induction v)
  case (VList xs)
  then have "map clean_document xs = xs"
    by (simp add: wf_list_iff has_special_list_iff map_idI)
  then show ?case by (simp add: clean_value_list)
next
  case (VDict items)
  have "map (\<lambda>kv. (fst kv, clean_value (snd kv))) items = items"
  proof (rule map_idI)
    fix kv assume kv: "kv \<in> set items"
    from kv VDict.prems have "wf_val (snd kv)" and "\<not> has_special (snd kv)"
      by (auto simp: wf_items_iff has_special_items_iff)
    then have "clean_value (snd kv) = snd kv"
      using VDict.IH [of kv "snd kv"] kv by (cases kv) auto
    then show "(fst kv, clean_value (snd kv)) = kv"
      by (cases kv) simp
  qed
  with VDict.prems show ?case
    by (simp add: clean_document_dict clean_value_dict del: clean_document.simps)
qed (simp_all add: clean_value_def)

lemma clean_twice:
  "wf_val v \<Longrightarrow>
   clean_document (clean_document v) = clean_document v \<and>
   clean_value (clean_value v) = clean_value v"
proof (induction v)
  case (VList xs)
  then have "map (clean_document \<circ> clean_document) xs = map clean_document xs"
    by (simp add: wf_list_iff)
  then show ?case by (simp add: clean_value_list)
next
  case (VDict items)
  then have d: "distinct (map fst items)" by simp
  let ?f = "\<lambda>kv. (fst kv, clean_value (snd kv))"
  have "map ?f (map ?f items) = map ?f items"
  proof -
    have "\<And>kv. kv \<in> set items \<Longrightarrow> ?f (?f kv) = ?f kv"
    proof -
      fix kv assume kv: "kv \<in> set items"
      with VDict.prems have "wf_val (snd kv)" by (auto simp: wf_items_iff)
      then have "clean_value (clean_value (snd kv)) = clean_value (snd kv)"
        using VDict.IH [of kv "snd kv"] kv by (cases kv) auto
      then show "?f (?f kv) = ?f kv" by simp
    qed
    then show ?thesis by (simp add: comp_def)
  qed
  moreover have "clean_document (VDict (map ?f items)) = VDict (map ?f (map ?f items))"
    using d by (intro clean_document_dict) (simp add: comp_def)
  ultimately show ?case
    using d by (simp add: clean_document_dict clean_value_dict del: clean_document.simps)
qed (simp_all add: clean_value_def)

section \<open>The slicing loop\<close>

lemma slices_Nil: "slices n [] = []"
  by (simp add: slices.simps)

lemma concat_slices: "0 < n \<Longrightarrow> concat (slices n xs) = xs"
proof (induction n xs rule: slices.induct)
  case (1 n xs)
  show ?case
  proof (cases "take n xs = []")
    case True
    with "1.prems" have "xs = []" by simp
    then show ?thesis by (simp add: slices_Nil)
  next
    case False
    with 1 have "concat (slices n (drop n xs)) = drop n xs" by simp
    with False show ?thesis by (subst slices.simps) simp
  qed
qed

lemma slices_bounds: "c \<in> set (slices n xs) \<Longrightarrow> c \<noteq> [] \<and> length c \<le> n"
proof (induction n xs rule: slices.induct)
  case (1 n xs)
  show ?case
  proof (cases "take n xs = []")
    case True
    with "1.prems" show ?thesis by (subst (asm) slices.simps) simp
  next
    case False
    from "1.prems" have "c = take n xs \<or> c \<in> set (slices n (drop n xs))"
      using False by (subst (asm) slices.simps) auto
    then show ?thesis
      using False "1.IH" by auto
  qed
qed

lemma map_length_slices:
  "0 < n \<Longrightarrow>
   map length (slices n xs) =
     replicate (length xs div n) n @ (if length xs mod n = 0 then [] else [length xs mod n])"
proof (induction n xs rule: slices.induct)
  case (1 n xs)
  show ?case
  proof (cases "take n xs = []")
    case True
    with "1.prems" have "xs = []" by simp
    then show ?thesis by (simp add: slices_Nil)
  next
    case False
    note ne = this
    have IH: "map length (slices n (drop n xs)) =
      replicate (length (drop n xs) div n) n @
        (if length (drop n xs) mod n = 0 then [] else [length (drop n xs) mod n])"
      using "1.IH" [OF refl ne "1.prems"] .
    show ?thesis
    proof (cases "n \<le> length xs")
      case True
      then have "length xs div n = Suc ((length xs - n) div n)"
        using "1.prems" by (simp add: le_div_geq)
      moreover have "length xs mod n = (length xs - n) mod n"
        using True by (simp add: le_mod_geq)
      ultimately show ?thesis
        using True ne IH by (subst slices.simps) (simp add: min_def)
    next
      case False
      then have "drop n xs = []" "take n xs = xs" by simp_all
      with False ne show ?thesis
        by (subst slices.simps) (simp add: slices_Nil)
    qed
  qed
qed

lemma ceil_step:
  fixes n m :: nat
  assumes "0 < n" "0 < m"
  shows "(m + n - 1) div n = Suc ((m - 1) div n)"
proof -
  have "m + n - 1 = (m - 1) + n" using assms by arith
  then have "(m + n - 1) div n = ((m - 1) + n) div n" by (rule arg_cong)
  also have "\<dots> = (m - 1) div n + 1" using assms(1) by (subst div_add_self2) simp_all
  finally show ?thesis by simp
qed

lemma length_slices: "0 < n \<Longrightarrow> length (slices n xs) = (length xs + n - 1) div n"
proof (induction n xs rule: slices.induct)
  case (1 n xs)
  show ?case
  proof (cases "take n xs = []")
    case True
    with "1.prems" have "xs = []" by simp
    with "1.prems" show ?thesis by (simp add: slices_Nil)
  next
    case False
    then have pos: "0 < length xs" by auto
    have IH: "length (slices n (drop n xs)) = (length (drop n xs) + n - 1) div n"
      using "1.IH" [OF refl False "1.prems"] .
    have "(length (drop n xs) + n - 1) div n = (length xs - 1) div n"
    proof (cases "n \<le> length xs")
      case True
      then have "length (drop n xs) + n - 1 = length xs - 1" by simp
      then show ?thesis by simp
    next
      case False
      with pos "1.prems" show ?thesis by simp
    qed
    with IH have "length (slices n xs) = Suc ((length xs - 1) div n)"
      using False by (subst slices.simps) simp
    with ceil_step [OF "1.prems" pos] show ?thesis by simp
  qed
qed

lemma slices_full:
  assumes n: "0 < n" and i: "Suc i < length (slices n xs)"
  shows "length (slices n xs ! i) = n"
proof -
  let ?k = "length xs div n"
  let ?t = "if length xs mod n = 0 then [] else [length xs mod n]"
  have m: "map length (slices n xs) = replicate ?k n @ ?t"
    using map_length_slices [OF n] .
  then have "length (slices n xs) = ?k + length ?t"
    by (metis length_append length_map length_replicate)
  with i have ik: "i < ?k" by (simp split: if_splits)
  have "length (slices n xs ! i) = map length (slices n xs) ! i"
    using i by simp
  also have "\<dots> = (replicate ?k n @ ?t) ! i" by (simp only: m)
  also have "\<dots> = n" using ik by (simp add: nth_append)
  finally show ?thesis .
qed

section \<open>The loader built by \<^verbatim>\<open>__init__\<close>\<close>

text \<open>
  On a loader that \<^verbatim>\<open>__init__\<close> built, \<^verbatim>\<open>make_query\<close> never reads the attribute that
  was not assigned.
\<close>

lemma filter_op_init:
  "filter_op (init coll inc) =
     Inr (case inc of
            None \<Rightarrow> VDict []
          | Some i \<Rightarrow>
              if \<not> truthy (last_value i) then VDict []
              else (case last_value_func i of
                      Max \<Rightarrow> VDict [(cursor_path i, VDict [(''$gte'', last_value i)])]
                    | Min \<Rightarrow> VDict [(cursor_path i, VDict [(''$lt'', last_value i)])]
                    | Custom \<Rightarrow> VDict []))"
  by (cases inc) (auto simp: filter_op_def init_def split: last_value_func.splits)

lemma collection_init [simp]: "collection (init coll inc) = coll"
  by (cases inc) (simp_all add: init_def)

lemma collection_documents_slices:
  "filter_op (init coll inc) = Inr f \<Longrightarrow>
   collection_documents coll inc = Inr (slices 10000 (map clean_document (coll f)))"
  by (simp add: collection_documents_def load_documents_def make_query_def CHUNK_SIZE_def)

section \<open>Sanitizing documents\<close>

text \<open>
  C1. The specification promises that the output of \<^verbatim>\<open>clean_document\<close> holds no
  \<^verbatim>\<open>ObjectId\<close> and no \<^verbatim>\<open>Decimal128\<close> at any depth, every \<^verbatim>\<open>ObjectId\<close> being replaced
  by its text. The function, whose docstring reads "Clean document to be json
  serializable", converts the two kinds only where they are the value of a key. An
  \<^verbatim>\<open>ObjectId\<close> that is an item of a list comes back as it went in, and so does everything
  inside a list that is itself an item of a list: the output below still holds the
  special values.
\<close>

theorem clean_document_keeps_special_in_list:
  "clean_document (VDict [(''refs'', VList [VObjectId 0x507f1f77bcf86cd799439011])]) =
     VDict [(''refs'', VList [VObjectId 0x507f1f77bcf86cd799439011])] \<and>
   has_special
     (clean_document (VDict [(''refs'', VList [VObjectId 0x507f1f77bcf86cd799439011])])) \<and>
   clean_document
     (VDict [(''m'', VList [VList [VDict [(''p'', VDecimal128 (Decimal128 False 1999 (- 2)))]]])]) =
     VDict [(''m'', VList [VList [VDict [(''p'', VDecimal128 (Decimal128 False 1999 (- 2)))]]])]"
  by simp

text \<open>
  C2. A list stored under a key is sanitized item by item with \<^verbatim>\<open>clean_document\<close>; an
  item that is an \<^verbatim>\<open>ObjectId\<close> or a \<^verbatim>\<open>Decimal128\<close> is not a mapping, so
  \<^verbatim>\<open>clean_document\<close> returns it as it is and the output list holds it, unconverted, at
  the same position.
\<close>

theorem clean_document_sequence:
  assumes "distinct (map fst items)" and "dict_get items key = Some (VList xs)"
  shows "\<exists>out ys. clean_document (VDict items) = VDict out \<and>
           dict_get out key = Some (VList ys) \<and>
           ys = map clean_document xs \<and>
           (\<forall>i<length xs. is_ObjectId (xs ! i) \<or> is_Decimal128 (xs ! i) \<longrightarrow>
              clean_document (xs ! i) = xs ! i \<and> ys ! i = xs ! i)"
proof -
  from clean_document_field [OF assms] obtain out where
    out: "clean_document (VDict items) = VDict out"
      "dict_get out key = Some (VList (map clean_document xs))"
    by (auto simp: clean_value_list)
  have "\<forall>i<length xs. is_ObjectId (xs ! i) \<or> is_Decimal128 (xs ! i) \<longrightarrow>
      clean_document (xs ! i) = xs ! i \<and> map clean_document xs ! i = xs ! i"
  proof (intro allI impI)
    fix i assume i: "i < length xs" and s: "is_ObjectId (xs ! i) \<or> is_Decimal128 (xs ! i)"
    then have "clean_document (xs ! i) = xs ! i"
      by (cases "xs ! i") auto
    with i show "clean_document (xs ! i) = xs ! i \<and> map clean_document xs ! i = xs ! i"
      by simp
  qed
  with out show ?thesis by blast
qed

theorem clean_document_sequence_witness:
  "\<exists>out. clean_document
       (VDict [(''n'', VInt 1), (''ids'', VList [VObjectId 7, VDict [(''k'', VObjectId 8)]])]) =
       VDict out \<and>
     dict_get out ''ids'' = Some (VList [VObjectId 7, VDict [(''k'', VStr (str_ObjectId 8))]])"
  using clean_document_sequence
    [of "[(''n'', VInt 1), (''ids'', VList [VObjectId 7, VDict [(''k'', VObjectId 8)]])]"
      "''ids''" "[VObjectId 7, VDict [(''k'', VObjectId 8)]]"]
  by simp

text \<open>
  C6. On a document that holds no \<^verbatim>\<open>ObjectId\<close> and no \<^verbatim>\<open>Decimal128\<close> at any depth,
  \<^verbatim>\<open>clean_document\<close> is the identity: the output has the keys, the order of the keys,
  the values and the order of list items of the input.
\<close>

theorem clean_document_identity:
  "wf_val document \<Longrightarrow> \<not> has_special document \<Longrightarrow> clean_document document = document"
  by (simp add: no_special_clean)

theorem clean_document_identity_witness:
  "clean_document
     (VDict [(''name'', VStr ''a''), (''tags'', VList [VInt 1, VDict [(''x'', VNone)]]),
             (''sub'', VDict [(''f'', VFloat 0), (''b'', VBool True)])]) =
   VDict [(''name'', VStr ''a''), (''tags'', VList [VInt 1, VDict [(''x'', VNone)]]),
          (''sub'', VDict [(''f'', VFloat 0), (''b'', VBool True)])]"
  using clean_document_identity
    [of "VDict [(''name'', VStr ''a''), (''tags'', VList [VInt 1, VDict [(''x'', VNone)]]),
                (''sub'', VDict [(''f'', VFloat 0), (''b'', VBool True)])]"]
  by simp

text \<open>
  C7. \<^verbatim>\<open>clean_document\<close> is idempotent: sanitizing a sanitized document gives it back.
\<close>

theorem clean_document_idempotent:
  "wf_val document \<Longrightarrow>
   clean_document (clean_document document) = clean_document document"
  by (simp add: clean_twice)

theorem clean_document_idempotent_witness:
  "clean_document
     (clean_document
        (VDict [(''_id'', VObjectId 5), (''price'', VDecimal128 (Decimal128 False 1999 (- 2))),
                (''refs'', VList [VObjectId 6, VDict [(''r'', VObjectId 7)]])])) =
   clean_document
     (VDict [(''_id'', VObjectId 5), (''price'', VDecimal128 (Decimal128 False 1999 (- 2))),
             (''refs'', VList [VObjectId 6, VDict [(''r'', VObjectId 7)]])])"
  using clean_document_idempotent
    [of "VDict [(''_id'', VObjectId 5), (''price'', VDecimal128 (Decimal128 False 1999 (- 2))),
                (''refs'', VList [VObjectId 6, VDict [(''r'', VObjectId 7)]])]"]
  by simp

text \<open>
  C8. A \<^verbatim>\<open>Decimal128\<close> stored under a key of a document is replaced by the result of
  \<^verbatim>\<open>to_decimal()\<close> and by nothing else (no float is computed on the way); that
  \<^verbatim>\<open>Decimal\<close> denotes the same number as the \<^verbatim>\<open>Decimal128\<close>, with the same sign,
  digits and exponent.
\<close>

theorem clean_document_decimal:
  assumes "distinct (map fst items)" and "dict_get items key = Some (VDecimal128 d)"
  shows "\<exists>out. clean_document (VDict items) = VDict out \<and>
           dict_get out key = Some (VDecimal (to_decimal d)) \<and>
           decimal_value (to_decimal d) = decimal128_value d \<and>
           (\<forall>s c e. d = Decimal128 s c e \<longrightarrow> to_decimal d = Decimal s c e)"
proof -
  from clean_document_field [OF assms] obtain out where
    "clean_document (VDict items) = VDict out"
    "dict_get out key = Some (VDecimal (to_decimal d))"
    by (auto simp: clean_value_def)
  moreover have "decimal_value (to_decimal d) = decimal128_value d"
    by (cases d) simp_all
  ultimately show ?thesis by auto
qed

theorem clean_document_decimal_witness:
  "\<exists>out. clean_document
       (VDict [(''sku'', VStr ''x''), (''price'', VDecimal128 (Decimal128 False 1999 (- 2)))]) =
       VDict out \<and>
     dict_get out ''price'' = Some (VDecimal (Decimal False 1999 (- 2))) \<and>
     decimal_value (Decimal False 1999 (- 2)) = Some (1999 / 100)"
  using clean_document_decimal
    [of "[(''sku'', VStr ''x''), (''price'', VDecimal128 (Decimal128 False 1999 (- 2)))]"
      "''price''" "Decimal128 False 1999 (- 2)"]
  by (simp add: pow10_def)

text \<open>
  C9. \<^verbatim>\<open>clean_document\<close> has a result for every value and raises for none. What is not
  a mapping is returned as it is; under a key, a value that is neither a mapping, a list,
  a \<^verbatim>\<open>Decimal128\<close> nor an \<^verbatim>\<open>ObjectId\<close> (an object of an unknown class included) is
  stored unchanged.
\<close>

theorem clean_document_passes_through:
  "(\<not> is_dict v \<longrightarrow> clean_document v = v) \<and>
   clean_document (VOther t n) = VOther t n \<and>
   (distinct (map fst items) \<and> dict_get items key = Some v \<and>
    \<not> is_dict v \<and> \<not> is_list v \<and> \<not> is_Decimal128 v \<and> \<not> is_ObjectId v \<longrightarrow>
      (\<exists>out. clean_document (VDict items) = VDict out \<and>
         map fst out = map fst items \<and> dict_get out key = Some v))"
proof (intro conjI impI)
  assume "\<not> is_dict v"
  then show "clean_document v = v" by (rule clean_document_non_dict)
next
  show "clean_document (VOther t n) = VOther t n" by simp
next
  assume a: "distinct (map fst items) \<and> dict_get items key = Some v \<and>
    \<not> is_dict v \<and> \<not> is_list v \<and> \<not> is_Decimal128 v \<and> \<not> is_ObjectId v"
  then have "clean_value v = v" by (simp add: clean_value_other)
  with a clean_document_field [of items key v]
  show "\<exists>out. clean_document (VDict items) = VDict out \<and>
         map fst out = map fst items \<and> dict_get out key = Some v"
    by simp
qed

theorem clean_document_passes_through_witness:
  "clean_document (VOther True 3) = VOther True 3 \<and>
   (\<exists>out. clean_document (VDict [(''ts'', VOther True 3), (''n'', VInt 2)]) = VDict out \<and>
      map fst out = [''ts'', ''n''] \<and> dict_get out ''ts'' = Some (VOther True 3))"
  using clean_document_passes_through
    [of "VOther True 3" True 3 "[(''ts'', VOther True 3), (''n'', VInt 2)]" "''ts''"]
  by simp

section \<open>Building the filter\<close>

text \<open>
  C3, as the specification states it: with a cursor whose watermark is present and whose
  policy is \<^verbatim>\<open>max\<close>, the filter is the \<^verbatim>\<open>$gte\<close> filter. For the watermark \<^verbatim>\<open>0\<close> the
  code builds the empty filter instead: \<^verbatim>\<open>not self.last_value\<close> is true of every falsy
  watermark, not only of \<^verbatim>\<open>None\<close>.
\<close>

theorem make_query_zero_watermark:
  "filter_op
     (init no_documents
        (Some \<lparr>cursor_path = ''ts'', last_value = VInt 0, last_value_func = Max\<rparr>)) =
     Inr (VDict []) \<and>
   filter_spec (Some \<lparr>cursor_path = ''ts'', last_value = VInt 0, last_value_func = Max\<rparr>) =
     VDict [(''ts'', VDict [(''$gte'', VInt 0)])]"
  by (simp add: filter_op_init filter_spec_def)

text \<open>
  C3, amended. Exactly one of four branches decides the filter that \<^verbatim>\<open>make_query\<close>
  hands to \<^verbatim>\<open>find\<close>: the filter is empty when no cursor is given or the watermark is
  falsy (\<^verbatim>\<open>None\<close>, \<^verbatim>\<open>0\<close>, the empty string, \<^verbatim>\<open>False\<close>, ...); otherwise it is
  \<^verbatim>\<open>{field: {"$gte": watermark}}\<close> for the policy \<^verbatim>\<open>max\<close>,
  \<^verbatim>\<open>{field: {"$lt": watermark}}\<close> for the policy \<^verbatim>\<open>min\<close>, and empty for any other
  policy.
\<close>

theorem make_query_branches:
  "(inc = None \<or> (\<exists>i. inc = Some i \<and> \<not> truthy (last_value i)) \<longrightarrow>
      filter_op (init coll inc) = Inr (VDict [])) \<and>
   (\<forall>i. inc = Some i \<and> truthy (last_value i) \<and> last_value_func i = Max \<longrightarrow>
      filter_op (init coll inc) =
        Inr (VDict [(cursor_path i, VDict [(''$gte'', last_value i)])])) \<and>
   (\<forall>i. inc = Some i \<and> truthy (last_value i) \<and> last_value_func i = Min \<longrightarrow>
      filter_op (init coll inc) =
        Inr (VDict [(cursor_path i, VDict [(''$lt'', last_value i)])])) \<and>
   (\<forall>i. inc = Some i \<and> truthy (last_value i) \<and> last_value_func i = Custom \<longrightarrow>
      filter_op (init coll inc) = Inr (VDict [])) \<and>
   (\<exists>f. filter_op (init coll inc) = Inr f \<and> make_query (init coll inc) = Inr (coll f))"
  by (cases inc) (auto simp: filter_op_init make_query_def)

theorem make_query_branches_witness:
  "filter_op (init no_documents None) = Inr (VDict []) \<and>
   filter_op
     (init no_documents
        (Some \<lparr>cursor_path = ''ts'', last_value = VInt 5, last_value_func = Max\<rparr>)) =
     Inr (VDict [(''ts'', VDict [(''$gte'', VInt 5)])]) \<and>
   filter_op
     (init no_documents
        (Some \<lparr>cursor_path = ''ts'', last_value = VInt 5, last_value_func = Min\<rparr>)) =
     Inr (VDict [(''ts'', VDict [(''$lt'', VInt 5)])]) \<and>
   filter_op
     (init no_documents
        (Some \<lparr>cursor_path = ''ts'', last_value = VInt 5, last_value_func = Custom\<rparr>)) =
     Inr (VDict [])"
  using make_query_branches [of None no_documents]
    make_query_branches
      [of "Some \<lparr>cursor_path = ''ts'', last_value = VInt 5, last_value_func = Max\<rparr>"
        no_documents]
    make_query_branches
      [of "Some \<lparr>cursor_path = ''ts'', last_value = VInt 5, last_value_func = Min\<rparr>"
        no_documents]
    make_query_branches
      [of "Some \<lparr>cursor_path = ''ts'', last_value = VInt 5, last_value_func = Custom\<rparr>"
        no_documents]
  by simp

text \<open>
  C4. With a watermark that is present but falsy (\<^verbatim>\<open>0\<close>, the empty string, \<^verbatim>\<open>False\<close>),
  \<^verbatim>\<open>make_query\<close> builds the empty filter, the one it builds when the watermark is
  \<^verbatim>\<open>None\<close>, whatever the policy; a \<^verbatim>\<open>$gte\<close> or \<^verbatim>\<open>$lt\<close> filter is built only with a
  truthy watermark.
\<close>

theorem make_query_falsy_watermark:
  "(\<not> truthy (last_value i) \<longrightarrow>
      filter_op (init coll (Some i)) = Inr (VDict []) \<and>
      filter_op (init coll (Some i)) = filter_op (init coll (Some (i\<lparr>last_value := VNone\<rparr>))) \<and>
      make_query (init coll (Some i)) = Inr (coll (VDict []))) \<and>
   (filter_op (init coll (Some i)) = Inr (VDict [(cursor_path i, VDict [(''$gte'', last_value i)])]) \<or>
    filter_op (init coll (Some i)) = Inr (VDict [(cursor_path i, VDict [(''$lt'', last_value i)])]) \<longrightarrow>
      truthy (last_value i)) \<and>
   \<not> truthy (VInt 0) \<and> \<not> truthy (VStr '''') \<and> \<not> truthy (VBool False)"
  by (auto simp: filter_op_init make_query_def split: if_splits)

theorem make_query_falsy_watermark_witness:
  "filter_op
     (init no_documents
        (Some \<lparr>cursor_path = ''ts'', last_value = VStr '''', last_value_func = Min\<rparr>)) =
     Inr (VDict []) \<and>
   make_query
     (init no_documents
        (Some \<lparr>cursor_path = ''ts'', last_value = VStr '''', last_value_func = Min\<rparr>)) =
     Inr (no_documents (VDict []))"
  using make_query_falsy_watermark
    [of "\<lparr>cursor_path = ''ts'', last_value = VStr '''', last_value_func = Min\<rparr>" no_documents]
  by simp

section \<open>Chunks of documents\<close>

text \<open>
  C5. When the query delivers \<open>N\<close> documents and \<open>N > 10000\<close>, \<^verbatim>\<open>collection_documents\<close>
  yields \<open>ceil(N / 10000)\<close> chunks; every chunk but the last holds 10000 documents, the
  last one at most 10000 and at least one; the chunks, one after the other, are the
  sanitized documents in the order of the store. With 25000 documents (and no
  incremental cursor, where the filter is empty) the chunks have the sizes 10000, 10000
  and 5000.
\<close>

theorem collection_documents_chunks:
  assumes "filter_op (init coll inc) = Inr f" and "10000 < length (coll f)"
  shows "\<exists>chunks. collection_documents coll inc = Inr chunks \<and>
           length chunks = (length (coll f) + 9999) div 10000 \<and>
           (\<forall>i. Suc i < length chunks \<longrightarrow> length (chunks ! i) = 10000) \<and>
           last chunks \<noteq> [] \<and> length (last chunks) \<le> 10000 \<and>
           concat chunks = map clean_document (coll f) \<and>
           (inc = None \<longrightarrow> f = VDict []) \<and>
           (length (coll f) = 25000 \<longrightarrow> map length chunks = [10000, 10000, 5000])"
proof -
  let ?docs = "map clean_document (coll f)"
  let ?chunks = "slices 10000 ?docs"
  have pos: "(0::nat) < 10000" by simp
  have r: "collection_documents coll inc = Inr ?chunks"
    using assms(1) by (rule collection_documents_slices)
  have len: "length ?chunks = (length (coll f) + 9999) div 10000"
    using length_slices [OF pos, of ?docs] by simp
  have full: "\<forall>i. Suc i < length ?chunks \<longrightarrow> length (?chunks ! i) = 10000"
    using slices_full [OF pos, of _ ?docs] by blast
  have "?chunks \<noteq> []"
    using len assms(2) by auto
  then have "last ?chunks \<in> set ?chunks" by simp
  then have "last ?chunks \<noteq> [] \<and> length (last ?chunks) \<le> 10000"
    by (rule slices_bounds)
  then have l1: "last ?chunks \<noteq> []" and l2: "length (last ?chunks) \<le> 10000"
    by simp_all
  have cat: "concat ?chunks = ?docs"
    using pos by (rule concat_slices)
  have none: "inc = None \<longrightarrow> f = VDict []"
    using assms(1) by (auto simp: filter_op_init)
  have c25: "length (coll f) = 25000 \<longrightarrow> map length ?chunks = [10000, 10000, 5000]"
  proof
    assume n: "length (coll f) = 25000"
    have "replicate 2 (10000::nat) = [10000, 10000]"
      by (simp add: numeral_2_eq_2)
    then show "map length ?chunks = [10000, 10000, 5000]"
      using map_length_slices [OF pos, of ?docs] n by simp
  qed
  show ?thesis
    by (intro exI [of _ ?chunks] conjI) (rule r len full l1 l2 cat none c25)+
qed

theorem collection_documents_chunks_witness:
  "\<exists>chunks. collection_documents (documents (replicate 25000 (VDict [(''n'', VInt 1)]))) None =
       Inr chunks \<and>
     length chunks = 3 \<and> map length chunks = [10000, 10000, 5000] \<and>
     concat chunks = replicate 25000 (VDict [(''n'', VInt 1)])"
proof -
  have f: "filter_op (init (documents (replicate 25000 (VDict [(''n'', VInt 1)]))) None) =
      Inr (VDict [])"
    by (simp add: filter_op_init)
  have n: "10000 < length (documents (replicate 25000 (VDict [(''n'', VInt 1)])) (VDict []))"
    by (simp add: documents_def)
  from collection_documents_chunks [OF f n] obtain chunks where
    r: "collection_documents (documents (replicate 25000 (VDict [(''n'', VInt 1)]))) None =
          Inr chunks"
    and len: "length chunks =
          (length (documents (replicate 25000 (VDict [(''n'', VInt 1)])) (VDict [])) + 9999)
            div 10000"
    and cat: "concat chunks =
          map clean_document (documents (replicate 25000 (VDict [(''n'', VInt 1)])) (VDict []))"
    and c25: "length (documents (replicate 25000 (VDict [(''n'', VInt 1)])) (VDict [])) = 25000
          \<longrightarrow> map length chunks = [10000, 10000, 5000]"
    by (elim exE conjE) (rule that, assumption+)
  from len have "length chunks = 3" by (simp add: documents_def)
  moreover from c25 have "map length chunks = [10000, 10000, 5000]"
    by (simp add: documents_def)
  moreover from cat have "concat chunks = replicate 25000 (VDict [(''n'', VInt 1)])"
    by (simp add: documents_def)
  ultimately show ?thesis using r by (intro exI [of _ chunks]) simp
qed

text \<open>
  C10. \<^verbatim>\<open>collection_documents\<close> never yields an empty chunk and never a chunk of more
  than 10000 documents; when the query delivers no document it yields no chunk.
\<close>

theorem collection_documents_chunk_bounds:
  "\<exists>f chunks. filter_op (init coll inc) = Inr f \<and>
     collection_documents coll inc = Inr chunks \<and>
     (\<forall>c\<in>set chunks. c \<noteq> [] \<and> length c \<le> 10000) \<and>
     (coll f = [] \<longrightarrow> chunks = [])"
proof -
  obtain f where f: "filter_op (init coll inc) = Inr f"
    by (simp add: filter_op_init)
  let ?chunks = "slices 10000 (map clean_document (coll f))"
  have "collection_documents coll inc = Inr ?chunks"
    using f by (rule collection_documents_slices)
  moreover have "\<forall>c\<in>set ?chunks. c \<noteq> [] \<and> length c \<le> 10000"
    using slices_bounds by blast
  moreover have "coll f = [] \<longrightarrow> ?chunks = []"
    by (simp add: slices_Nil)
  ultimately show ?thesis using f by blast
qed

theorem collection_documents_chunk_bounds_witness:
  "collection_documents no_documents None = Inr [] \<and>
   (\<exists>chunks. collection_documents (documents [VDict [], VDict [(''a'', VObjectId 1)]]) None =
      Inr chunks \<and> (\<forall>c\<in>set chunks. c \<noteq> [] \<and> length c \<le> 10000))"
proof -
  have "filter_op (init no_documents None) = Inr (VDict [])"
    by (simp add: filter_op_init)
  with collection_documents_chunk_bounds [of no_documents None]
  have "collection_documents no_documents None = Inr []"
    by (auto simp: no_documents_def)
  moreover from collection_documents_chunk_bounds
    [of "documents [VDict [], VDict [(''a'', VObjectId 1)]]" None]
  have "\<exists>chunks. collection_documents (documents [VDict [], VDict [(''a'', VObjectId 1)]]) None =
      Inr chunks \<and> (\<forall>c\<in>set chunks. c \<noteq> [] \<and> length c \<le> 10000)"
    by blast
  ultimately show ?thesis by simp
qed

end
